theory Spec2Isabelle
  imports Main "HOL-Library.Word"
begin

section \<open>The attach I/O layer of the conmon-rs Go client (pkg/client/attach.go)\<close>

subsection \<open>Constants, errors and I/O endpoints\<close>

type_synonym byte = "8 word"

text \<open>Go's \<open>int\<close> on the 64-bit targets of the client; \<open>+\<close> wraps around.\<close>

type_synonym goint = "64 word"

definition attachPacketBufSize :: nat where
  "attachPacketBufSize = 8192"

definition attachPipeStdin :: byte where
  "attachPipeStdin = 1"

definition attachPipeStdout :: byte where
  "attachPipeStdout = 2"

definition attachPipeStderr :: byte where
  "attachPipeStderr = 3"

text \<open>
  Error values. \<open>EOF\<close> is \<open>io.EOF\<close>, \<open>ErrShortWrite\<close> is \<open>io.ErrShortWrite\<close>,
  \<open>ErrDetach\<close> is \<open>define.ErrDetach\<close>, \<open>ErrOutputDestinationNil\<close> is the value made by
  \<open>errors.New("output destination cannot be nil")\<close>, \<open>Wrapf e msg\<close> is
  \<open>errors.Wrapf(e, msg)\<close>, and \<open>Other msg\<close> is any other error the environment
  hands in. The code compares errors with \<open>==\<close>, which is equality of these values.
  A Go \<open>error\<close> that may be \<open>nil\<close> is an \<open>error option\<close>.
\<close>

datatype error =
    EOF
  | ErrShortWrite
  | ErrDetach
  | ErrOutputDestinationNil
  | Wrapf error string
  | Other string

type_synonym goerr = "error option"

text \<open>
  An \<open>io.Writer\<close>. \<open>calls\<close> is the list of buffers handed to \<open>Write\<close> so far,
  oldest first; \<open>respond\<close> is the writer's behaviour, which the code does not
  control: from the earlier calls and the buffer of this call it gives the pair
  \<open>(n, err)\<close> that \<open>Write\<close> returns.
\<close>

record writer =
  respond :: "byte list list \<Rightarrow> byte list \<Rightarrow> goint \<times> goerr"
  calls :: "byte list list"

definition Write :: "writer \<Rightarrow> byte list \<Rightarrow> (goint \<times> goerr) \<times> writer" where
  "Write wr p = (respond wr (calls wr) p, wr\<lparr>calls := calls wr @ [p]\<rparr>)"

text \<open>
  An \<open>io.Reader\<close> is the list of what its successive \<open>Read\<close> calls return: the bytes
  that are available (one packet, for the \<open>unixpacket\<close> attach socket) and the error.
  \<open>Read n\<close> is a read into a buffer of \<open>n\<close> bytes: it returns at most \<open>n\<close> bytes.
  The rest of a longer packet is lost, as it is on a packet socket; a stream reader
  never has an entry longer than the buffer it is read with. A reader whose list is
  used up never returns from \<open>Read\<close>: the peer stays silent.
\<close>

type_synonym read_result = "byte list \<times> goerr"

type_synonym reader = "read_result list"

definition Read :: "nat \<Rightarrow> read_result \<Rightarrow> byte list \<times> goerr" where
  "Read n r = (take n (fst r), snd r)"

datatype conn_op = CloseWrite | Close

text \<open>
  What the client's logger is given at the levels \<open>Info\<close> and \<open>Error\<close>; the \<open>Debug\<close>
  lines are not recorded.
\<close>

datatype log_entry =
    UnexpectedAttachType byte
  | UnableToCloseConn error
  | UnableToCloseSocket error

subsection \<open>Configuration\<close>

text \<open>
  \<open>Stdout\<close> and \<open>Stderr\<close> are interface values: \<open>None\<close> is \<open>nil\<close>, \<open>Some a\<close> is the
  writer object at address \<open>a\<close> of the heap, so that both may be the same object.
  \<open>Stdin\<close> is taken to be non-nil. \<open>PreAttachFunc\<close> and \<open>PostAttachFunc\<close> are
  \<open>None\<close> when the closure is \<open>nil\<close> and \<open>Some r\<close> when it is a closure that returns
  \<open>r\<close>. The \<open>Resize\<close> channel feeds a goroutine of its own that touches neither the
  streams nor the attach socket; it is left out.
\<close>

record AttachStreams =
  Stdin :: reader
  Stdout :: "nat option"
  Stderr :: "nat option"
  AttachStdin :: bool
  AttachStdout :: bool
  AttachStderr :: bool

record AttachConfig =
  ID :: string
  SocketPath :: string
  ExecSession :: string
  Tty :: bool
  StopAfterStdinEOF :: bool
  Passthrough :: bool
  Streams :: AttachStreams
  PreAttachFunc :: "goerr option"
  PostAttachFunc :: "goerr option"
  DetachKeys :: "byte list"

text \<open>The mutable objects the output side works on: the writers and the client's logger.\<close>

record world =
  heap :: "nat \<Rightarrow> writer"
  logged :: "log_entry list"

subsection \<open>The output demultiplexer\<close>

text \<open>
  How one pass through the loop body ends: \<open>Next\<close> falls through to the code after
  the block, \<open>Exit e\<close> leaves the function with \<open>e\<close> (a \<open>return\<close>, or \<open>err = e\<close>
  followed by \<open>break\<close> and the final \<open>return err\<close>).
\<close>

datatype flow = Next | Exit goerr

text \<open>
  The body of \<open>if nr > 0\<close> (attach.go:163-191) for a chunk \<open>buf[0:nr] = tag # payload\<close>,
  so that \<open>nr = length payload + 1\<close> and \<open>buf[1:nr] = payload\<close>.
\<close>

definition route :: "AttachConfig \<Rightarrow> byte \<Rightarrow> world \<Rightarrow> (nat option \<times> bool) \<times> world" where
  "route cfg tag w =
     (if tag = attachPipeStdout then ((Stdout (Streams cfg), AttachStdout (Streams cfg)), w)
      else if tag = attachPipeStderr then ((Stderr (Streams cfg), AttachStderr (Streams cfg)), w)
      else ((None, False), w\<lparr>logged := logged w @ [UnexpectedAttachType tag]\<rparr>))"

definition deliver :: "AttachConfig \<Rightarrow> byte \<Rightarrow> byte list \<Rightarrow> world \<Rightarrow> flow \<times> world" where
  "deliver cfg tag payload w =
     (case route cfg tag w of
        ((None, doWrite), w1) \<Rightarrow> (Exit (Some ErrOutputDestinationNil), w1)
      | ((Some a, doWrite), w1) \<Rightarrow>
          if doWrite then
            (case Write (heap w1 a) payload of
               ((nw, ew), wr) \<Rightarrow>
                 let w2 = w1\<lparr>heap := (heap w1)(a := wr)\<rparr>
                 in if ew \<noteq> None then (Exit ew, w2)
                    else if (of_nat (length payload + 1) :: goint) \<noteq> nw + 1
                      then (Exit (Some ErrShortWrite), w2)
                    else (Next, w2))
          else (Next, w1))"

text \<open>
  \<open>redirectResponseToOutputStreams cfg conn w\<close> runs the loop against the reader
  \<open>conn\<close>. It gives \<open>Some err\<close> when the function returns \<open>err\<close> and \<open>None\<close> when it
  never returns (it waits in \<open>Read\<close> for ever), the unread rest of \<open>conn\<close>, and the
  world as the loop left it.
\<close>

fun redirectResponseToOutputStreams ::
  "AttachConfig \<Rightarrow> reader \<Rightarrow> world \<Rightarrow> goerr option \<times> reader \<times> world" where
  "redirectResponseToOutputStreams cfg [] w = (None, [], w)"
| "redirectResponseToOutputStreams cfg (r # conn) w =
     (case Read (attachPacketBufSize + 1) r of
        (buf, er) \<Rightarrow>
          (case (case buf of [] \<Rightarrow> (Next, w) | tag # payload \<Rightarrow> deliver cfg tag payload w) of
             (Exit err, w1) \<Rightarrow> (Some err, conn, w1)
           | (Next, w1) \<Rightarrow>
               if er = Some EOF then (Some None, conn, w1)
               else if er \<noteq> None then (Some er, conn, w1)
               else redirectResponseToOutputStreams cfg conn w1))"

subsection \<open>The stdin forwarder\<close>

text \<open>
  The stdin goroutine of \<open>setupStdioChannels\<close> calls \<open>utils.CopyDetachable\<close>, a function
  of the podman library that attach.go imports (\<open>github.com/containers/podman/v3/utils\<close>);
  it is not code of this repository. The repository's functions below take it as a
  parameter of type \<open>copier\<close>: from the destination writer, the source reader and the
  detach keys it gives the error it returns (\<open>None\<close> when it never returns), and the
  writer and the reader as it left them. The byte count it also returns is dropped by
  the caller.

  \<open>CopyDetachable\<close> itself is written after the library's function: a 32 KiB buffer, a
  scan of the chunk against the detach keys that reads on while single bytes match, and
  a \<open>dst.Write\<close> of the bytes as they were read. \<open>scanKeys\<close> is its inner loop
  \<open>for i, key := range keys\<close>, entered with the keys that are left, \<open>preservBuf\<close>,
  the chunk \<open>buf[0:nr]\<close>, \<open>er\<close> and the source.
\<close>

type_synonym copier = "writer \<Rightarrow> reader \<Rightarrow> byte list \<Rightarrow> goerr option \<times> writer \<times> reader"

definition copyBufSize :: nat where
  "copyBufSize = 32 * 1024"

datatype scanned =
    Detached reader
  | Forward "byte list" "byte list" goerr reader
  | Starved

fun scanKeys :: "byte list \<Rightarrow> byte list \<Rightarrow> byte list \<Rightarrow> goerr \<Rightarrow> reader \<Rightarrow> scanned" where
  "scanKeys [] preservBuf buf er src = Forward preservBuf buf er src"
| "scanKeys (key # keys) preservBuf buf er src =
     (if length buf \<noteq> 1 \<or> hd buf \<noteq> key then Forward (preservBuf @ buf) buf er src
      else if keys = [] then Detached src
      else (case src of
              [] \<Rightarrow> Starved
            | r # src' \<Rightarrow>
                (case Read copyBufSize r of
                   (buf', er') \<Rightarrow> scanKeys keys (preservBuf @ buf) buf' er' src')))"

text \<open>The checks on \<open>er\<close> that end each pass of both copy loops.\<close>

definition readEnded :: "goerr \<Rightarrow> goerr option" where
  "readEnded er =
     (if er = Some EOF then Some None
      else if er \<noteq> None then Some er
      else None)"

function CopyDetachable :: copier where
  "CopyDetachable dst [] keys = (None, dst, [])"
| "CopyDetachable dst (r # src) keys =
     (case Read copyBufSize r of
        (buf, er) \<Rightarrow>
          if length buf > 0 then
            (case scanKeys keys [] buf er src of
               Starved \<Rightarrow> (None, dst, [])
             | Detached src1 \<Rightarrow> (Some (Some ErrDetach), dst, src1)
             | Forward preservBuf buf1 er1 src1 \<Rightarrow>
                 (case Write dst (if length preservBuf > 0 then preservBuf else buf1) of
                    ((nw, ew), dst1) \<Rightarrow>
                      if ew \<noteq> None then (Some ew, dst1, src1)
                      else if (of_nat (length (if length preservBuf > 0 then preservBuf else buf1)) :: goint) \<noteq> nw
                        then (Some (Some ErrShortWrite), dst1, src1)
                      else (case readEnded er1 of
                              Some err \<Rightarrow> (Some err, dst1, src1)
                            | None \<Rightarrow> CopyDetachable dst1 src1 keys)))
          else (case readEnded er of
                  Some err \<Rightarrow> (Some err, dst, src)
                | None \<Rightarrow> CopyDetachable dst src keys))"
  by pat_completeness auto
termination
proof (relation "measure (\<lambda>(dst, src, keys). length src)")
  have shorter: "length s' \<le> length s"
    if "scanKeys ks p b e s = Forward p' b' e' s'" for ks p b e s p' b' e' s'
    using that
  proof (induction ks arbitrary: p b e s)
    case Nil
    then show ?case by simp
  next
    case (Cons key ks)
    show ?case
    proof (cases "length b \<noteq> 1 \<or> hd b \<noteq> key")
      case True
      with Cons.prems show ?thesis by simp
    next
      case False
      note single = False
      show ?thesis
      proof (cases s)
        case Nil
        with Cons.prems single show ?thesis by (simp split: if_splits)
      next
        case tail: (Cons r s1)
        obtain b1 e1 where "Read copyBufSize r = (b1, e1)"
          by (cases "Read copyBufSize r")
        with Cons.prems single tail
        have "scanKeys ks (p @ b) b1 e1 s1 = Forward p' b' e' s'"
          by (simp split: if_splits)
        from Cons.IH [OF this] tail show ?thesis by simp
      qed
    qed
  qed
  fix dst :: writer and r :: read_result and src :: reader and keys :: "byte list"
    and x1 x2 x31 x32 x33 x34 x y x1a x2a xb yb
  assume "scanKeys keys [] x1 x2 src = Forward x31 x32 x33 x34"
  then show "((y, x34, keys), dst, r # src, keys) \<in> measure (\<lambda>(dst, src, keys). length src)"
    using shorter by fastforce
qed auto

subsection \<open>The attach socket and the coordinator\<close>

text \<open>
  The attach socket: its read direction, its write direction, what \<open>CloseWrite\<close> and
  \<open>Close\<close> return when called, and the calls of these two made so far, oldest first.
\<close>

record unixConn =
  rd :: reader
  wr :: writer
  closeWriteResult :: goerr
  closeResult :: goerr
  ops :: "conn_op list"

definition connCloseWrite :: "unixConn \<Rightarrow> goerr \<times> unixConn" where
  "connCloseWrite conn = (closeWriteResult conn, conn\<lparr>ops := ops conn @ [CloseWrite]\<rparr>)"

definition connClose :: "unixConn \<Rightarrow> goerr \<times> unixConn" where
  "connClose conn = (closeResult conn, conn\<lparr>ops := ops conn @ [Close]\<rparr>)"

text \<open>
  An unbuffered \<open>chan error\<close> on which one goroutine sends once: \<open>Some e\<close> when
  \<open>e\<close> is sent at some time, \<open>None\<close> when nothing is ever sent.
\<close>

type_synonym 'a chan = "'a option"

text \<open>
  The body of the second goroutine of \<open>setupStdioChannels\<close> (attach.go:148-154), with
  \<open>utils.CopyDetachable\<close> as \<open>copy\<close>.
\<close>

definition copyStdin ::
  "copier \<Rightarrow> AttachConfig \<Rightarrow> unixConn \<Rightarrow> goerr option \<times> writer \<times> reader" where
  "copyStdin copy cfg conn =
     (if AttachStdin (Streams cfg)
      then copy (wr conn) (Stdin (Streams cfg)) (DetachKeys cfg)
      else (Some None, wr conn, Stdin (Streams cfg)))"

text \<open>
  Each goroutine runs on its own against its end of the socket; the coordinator sees
  only the value each one sends.
\<close>

definition setupStdioChannels ::
  "copier \<Rightarrow> AttachConfig \<Rightarrow> unixConn \<Rightarrow> world \<Rightarrow> goerr chan \<times> goerr chan" where
  "setupStdioChannels copy cfg conn w =
     (fst (redirectResponseToOutputStreams cfg (rd conn) w), fst (copyStdin copy cfg conn))"

text \<open>
  The \<open>select\<close> of \<open>readStdio\<close>: it takes the case whose channel has a value; when
  both goroutines send, the scheduler's choice \<open>pick\<close> says which is received first;
  when neither ever sends it waits for ever.
\<close>

datatype side = ReceiveStdoutError | StdinDone

definition selectCase :: "side \<Rightarrow> goerr chan \<Rightarrow> goerr chan \<Rightarrow> (side \<times> goerr) option" where
  "selectCase pick receiveStdoutError stdinDone =
     (case (receiveStdoutError, stdinDone) of
        (None, None) \<Rightarrow> None
      | (Some eo, None) \<Rightarrow> Some (ReceiveStdoutError, eo)
      | (None, Some ei) \<Rightarrow> Some (StdinDone, ei)
      | (Some eo, Some ei) \<Rightarrow>
          Some (case pick of ReceiveStdoutError \<Rightarrow> (ReceiveStdoutError, eo)
                | StdinDone \<Rightarrow> (StdinDone, ei)))"

definition readStdio ::
  "side \<Rightarrow> AttachConfig \<Rightarrow> unixConn \<Rightarrow> goerr chan \<Rightarrow> goerr chan \<Rightarrow> world
     \<Rightarrow> goerr option \<times> unixConn \<times> world" where
  "readStdio pick cfg conn receiveStdoutError stdinDone w =
     (case selectCase pick receiveStdoutError stdinDone of
        None \<Rightarrow> (None, conn, w)
      | Some (ReceiveStdoutError, err) \<Rightarrow> (Some err, snd (connCloseWrite conn), w)
      | Some (StdinDone, err) \<Rightarrow>
          if StopAfterStdinEOF cfg then (Some None, conn, w)
          else if err = Some ErrDetach then (Some err, snd (connCloseWrite conn), w)
          else
            (case (if err = None
                   then (case connCloseWrite conn of
                           (None, conn1) \<Rightarrow> (conn1, w)
                         | (Some connErr, conn1) \<Rightarrow>
                             (conn1, w\<lparr>logged := logged w @ [UnableToCloseConn connErr]\<rparr>))
                   else (conn, w)) of
               (conn1, w1) \<Rightarrow>
                 if AttachStdout (Streams cfg) \<or> AttachStderr (Streams cfg)
                 then (receiveStdoutError, conn1, w1)
                 else (Some None, conn1, w1)))"

text \<open>
  \<open>attach\<close>, with \<open>utils.CopyDetachable\<close> as \<open>copy\<close>, the scheduler's choice as \<open>pick\<close>
  and the result of \<open>DialLongSocket\<close> as \<open>dial\<close>. A passthrough session
  never dials, so it has no connection (\<open>None\<close>); otherwise the deferred \<open>conn.Close()\<close>
  runs when the function returns, and not when it waits for ever. The socket and the
  world it gives back carry the calls and the log lines of \<open>attach\<close> and \<open>readStdio\<close>
  themselves; what the two goroutines do to the sinks and to the data of the socket is
  given by their bodies above.
\<close>

definition attach ::
  "copier \<Rightarrow> side \<Rightarrow> error + unixConn \<Rightarrow> AttachConfig \<Rightarrow> world
     \<Rightarrow> goerr option \<times> unixConn option \<times> world" where
  "attach copy pick dial cfg w =
     (if \<not> Passthrough cfg then
        (case dial of
           Inl err \<Rightarrow>
             (Some (Some (Wrapf err
                (''failed to connect to container's attach socket: '' @ SocketPath cfg))),
              None, w)
         | Inr conn \<Rightarrow>
             (case (case PreAttachFunc cfg of
                      Some (Some err) \<Rightarrow> (Some (Some err), conn, w)
                    | _ \<Rightarrow>
                        (case setupStdioChannels copy cfg conn w of
                           (receiveStdoutError, stdinDone) \<Rightarrow>
                             (case PostAttachFunc cfg of
                                Some (Some err) \<Rightarrow> (Some (Some err), conn, w)
                              | _ \<Rightarrow> readStdio pick cfg conn receiveStdoutError stdinDone w))) of
                (None, conn1, w1) \<Rightarrow> (None, Some conn1, w1)
              | (Some res, conn1, w1) \<Rightarrow>
                  (case connClose conn1 of
                     (None, conn2) \<Rightarrow> (Some res, Some conn2, w1)
                   | (Some err, conn2) \<Rightarrow>
                       (Some res, Some conn2, w1\<lparr>logged := logged w1 @ [UnableToCloseSocket err]\<rparr>))))
      else
        (case PreAttachFunc cfg of
           Some (Some err) \<Rightarrow> (Some (Some err), None, w)
         | _ \<Rightarrow> (Some None, None, w)))"

subsection \<open>Sample values\<close>

text \<open>
  A writer that takes every buffer whole; one that takes a single byte of each buffer
  and reports \<open>io.ErrShortWrite\<close>, as \<open>os.File\<close> does after a partial write; one that
  takes a single byte of each buffer without an error; a world of whole-taking
  writers; a socket whose peer sends one stderr frame and closes; a configuration that
  delivers stderr only; and one that forwards a stdin of one byte.
\<close>

definition wholeWriter :: writer where
  "wholeWriter = \<lparr>respond = (\<lambda>done p. (of_nat (length p), None)), calls = []\<rparr>"



definition exWorld :: world where
  "exWorld = \<lparr>heap = (\<lambda>a. wholeWriter), logged = []\<rparr>"

definition exConn :: unixConn where
  "exConn = \<lparr>rd = [([attachPipeStderr, 97], None), ([], Some EOF)], wr = wholeWriter,
     closeWriteResult = None, closeResult = None, ops = []\<rparr>"

definition exStreams :: AttachStreams where
  "exStreams = \<lparr>Stdin = [], Stdout = Some 0, Stderr = Some 1,
     AttachStdin = False, AttachStdout = False, AttachStderr = True\<rparr>"

definition exCfg :: AttachConfig where
  "exCfg = \<lparr>ID = ''ctr'', SocketPath = ''/run/attach'', ExecSession = ''exec'', Tty = False,
     StopAfterStdinEOF = False, Passthrough = False, Streams = exStreams,
     PreAttachFunc = None, PostAttachFunc = None, DetachKeys = []\<rparr>"

definition exStdinCfg :: AttachConfig where
  "exStdinCfg = exCfg\<lparr>Streams := exStreams\<lparr>Stdin := [([97], None), ([], Some EOF)],
     AttachStdin := True\<rparr>\<rparr>"

section \<open>Properties\<close>

subsection \<open>The output demultiplexer: fatal chunks\<close>

lemma redirect_append:
  "redirectResponseToOutputStreams cfg pre w = (None, rest, w') \<Longrightarrow>
   redirectResponseToOutputStreams cfg (pre @ later) w =
     redirectResponseToOutputStreams cfg later w'"
  by (induction pre arbitrary: w)
     (auto split: prod.splits flow.splits if_splits list.splits)

lemma Read_Cons:
  "fst r = tag # payload \<Longrightarrow>
   Read (Suc attachPacketBufSize) r = (tag # take attachPacketBufSize payload, snd r)"
  by (simp add: Read_def)

lemma deliver_unroutable:
  "tag \<noteq> attachPipeStdout \<Longrightarrow> tag \<noteq> attachPipeStderr \<Longrightarrow>
   deliver cfg tag payload w =
     (Exit (Some ErrOutputDestinationNil), w\<lparr>logged := logged w @ [UnexpectedAttachType tag]\<rparr>)"
  by (simp add: deliver_def route_def)

lemma deliver_nil:
  "(tag = attachPipeStdout \<and> Stdout (Streams cfg) = None) \<or>
   (tag = attachPipeStderr \<and> Stderr (Streams cfg) = None) \<Longrightarrow>
   deliver cfg tag payload w = (Exit (Some ErrOutputDestinationNil), w)"
  by (auto simp add: deliver_def route_def attachPipeStdout_def attachPipeStderr_def)

lemma unroutable_tag_returns:
  assumes "redirectResponseToOutputStreams cfg pre w = (None, rest, w')"
    and "fst r = tag # payload"
    and "tag \<noteq> attachPipeStdout" and "tag \<noteq> attachPipeStderr"
  shows "redirectResponseToOutputStreams cfg (pre @ r # conn) w =
           (Some (Some ErrOutputDestinationNil), conn,
            w'\<lparr>logged := logged w' @ [UnexpectedAttachType tag]\<rparr>)"
proof -
  have "redirectResponseToOutputStreams cfg (r # conn) w' =
           (Some (Some ErrOutputDestinationNil), conn,
            w'\<lparr>logged := logged w' @ [UnexpectedAttachType tag]\<rparr>)"
    using assms(3,4) by (simp add: Read_Cons [OF assms(2)] deliver_unroutable)
  then show ?thesis
    using redirect_append [OF assms(1)] by simp
qed

text \<open>
  C10: whatever the loop has read before, a non-empty chunk tagged STDOUT while
  \<open>Streams.Stdout\<close> is nil, or tagged STDERR while \<open>Streams.Stderr\<close> is nil, makes
  \<open>redirectResponseToOutputStreams\<close> return the error "output destination cannot be
  nil", whatever \<open>AttachStdout\<close> and \<open>AttachStderr\<close> are: the nil check comes before
  the flag is looked at.
\<close>

theorem nil_destination_is_fatal:
  assumes "redirectResponseToOutputStreams cfg pre w = (None, rest, w')"
    and "fst r = tag # payload"
    and "(tag = attachPipeStdout \<and> Stdout (Streams cfg) = None) \<or>
         (tag = attachPipeStderr \<and> Stderr (Streams cfg) = None)"
  shows "redirectResponseToOutputStreams cfg (pre @ r # conn) w =
           (Some (Some ErrOutputDestinationNil), conn, w')"
proof -
  have "redirectResponseToOutputStreams cfg (r # conn) w' =
           (Some (Some ErrOutputDestinationNil), conn, w')"
    by (simp add: Read_Cons [OF assms(2)] deliver_nil [OF assms(3)])
  then show ?thesis
    using redirect_append [OF assms(1)] by simp
qed

theorem nil_destination_is_fatal_witness:
  "\<not> AttachStdout (Streams (exCfg\<lparr>Streams := exStreams\<lparr>Stdout := None\<rparr>\<rparr>)) \<and>
   redirectResponseToOutputStreams (exCfg\<lparr>Streams := exStreams\<lparr>Stdout := None\<rparr>\<rparr>)
     ([([attachPipeStderr, 97], None)] @
      ([attachPipeStdout, 98], None) # [([attachPipeStderr, 99], None)]) exWorld =
     (Some (Some ErrOutputDestinationNil), [([attachPipeStderr, 99], None)],
      exWorld\<lparr>heap := (heap exWorld)(1 := wholeWriter\<lparr>calls := [[97]]\<rparr>)\<rparr>)"
proof -
  have pre: "redirectResponseToOutputStreams (exCfg\<lparr>Streams := exStreams\<lparr>Stdout := None\<rparr>\<rparr>)
      [([attachPipeStderr, 97], None)] exWorld =
      (None, [], exWorld\<lparr>heap := (heap exWorld)(1 := wholeWriter\<lparr>calls := [[97]]\<rparr>)\<rparr>)"
    by (simp add: Read_def deliver_def route_def Write_def exCfg_def exStreams_def
        exWorld_def wholeWriter_def attachPacketBufSize_def attachPipeStdout_def
        attachPipeStderr_def)
  show ?thesis
    using nil_destination_is_fatal
      [OF pre, of "([attachPipeStdout, 98], None)" attachPipeStdout "[98]"]
    by (simp add: exCfg_def exStreams_def)
qed

subsection \<open>The output demultiplexer: delivery\<close>

lemma deliver_stderr_only:
  assumes "\<not> AttachStdout (Streams cfg)" and "AttachStderr (Streams cfg)"
    and "Stdout (Streams cfg) = Some so" and "Stderr (Streams cfg) = Some se"
    and "deliver cfg tag payload w = (fl, w1)"
  shows "calls (heap w1 se) =
           calls (heap w se) @ (if tag = attachPipeStderr then [payload] else []) \<and>
         (\<forall>a. a \<noteq> se \<longrightarrow> heap w1 a = heap w a)"
  using assms
  by (auto simp add: deliver_def route_def Write_def Let_def attachPipeStdout_def
      attachPipeStderr_def split: if_splits prod.splits)

lemma deliver_stdout_discarded:
  assumes "\<not> AttachStdout (Streams cfg)" and "Stdout (Streams cfg) = Some so"
  shows "deliver cfg attachPipeStdout payload w = (Next, w)"
  using assms by (simp add: deliver_def route_def)

lemma stderr_only_run:
  assumes "\<not> AttachStdout (Streams cfg)" and "AttachStderr (Streams cfg)"
    and "Stdout (Streams cfg) = Some so" and "Stderr (Streams cfg) = Some se"
  shows "redirectResponseToOutputStreams cfg conn w = (res, rest, w') \<Longrightarrow>
    \<exists>consumed. conn = consumed @ rest \<and>
      calls (heap w' se) = calls (heap w se) @
        [tl b. b \<leftarrow> map (\<lambda>r. fst (Read (attachPacketBufSize + 1) r)) consumed,
               b \<noteq> [], hd b = attachPipeStderr] \<and>
      (\<forall>a. a \<noteq> se \<longrightarrow> heap w' a = heap w a)"
proof (induction conn arbitrary: w)
  case Nil
  then show ?case by simp
next
  case (Cons r conn)
  obtain buf er where rd: "Read (attachPacketBufSize + 1) r = (buf, er)"
    by (cases "Read (attachPacketBufSize + 1) r")
  obtain fl w1 where
    st: "(case buf of [] \<Rightarrow> (Next, w) | tag # payload \<Rightarrow> deliver cfg tag payload w) = (fl, w1)"
    by (cases "case buf of [] \<Rightarrow> (Next, w) | tag # payload \<Rightarrow> deliver cfg tag payload w")
  have one: "calls (heap w1 se) = calls (heap w se) @
        [tl b. b \<leftarrow> [buf], b \<noteq> [], hd b = attachPipeStderr] \<and>
      (\<forall>a. a \<noteq> se \<longrightarrow> heap w1 a = heap w a)"
  proof (cases buf)
    case Nil
    with st show ?thesis by simp
  next
    case (Cons tag payload)
    with st have "deliver cfg tag payload w = (fl, w1)" by simp
    from deliver_stderr_only [OF assms this] Cons show ?thesis by simp
  qed
  show ?case
  proof (cases "fl = Next \<and> er = None")
    case True
    with Cons.prems rd st
    have "redirectResponseToOutputStreams cfg conn w1 = (res, rest, w')"
      by simp
    from Cons.IH [OF this] obtain consumed where
      c: "conn = consumed @ rest"
        "calls (heap w' se) = calls (heap w1 se) @
          [tl b. b \<leftarrow> map (\<lambda>r. fst (Read (attachPacketBufSize + 1) r)) consumed,
                 b \<noteq> [], hd b = attachPipeStderr]"
        "\<forall>a. a \<noteq> se \<longrightarrow> heap w' a = heap w1 a"
      by blast
    have "r # conn = (r # consumed) @ rest" using c(1) by simp
    moreover have "calls (heap w' se) = calls (heap w se) @
          [tl b. b \<leftarrow> map (\<lambda>r. fst (Read (attachPacketBufSize + 1) r)) (r # consumed),
                 b \<noteq> [], hd b = attachPipeStderr]"
      using c(2) one rd by simp
    moreover have "\<forall>a. a \<noteq> se \<longrightarrow> heap w' a = heap w a"
      using c(3) one by simp
    ultimately show ?thesis by blast
  next
    case False
    with Cons.prems rd st have "rest = conn \<and> w' = w1"
      by (cases fl) (auto split: if_splits)
    then have "r # conn = [r] @ rest" and "w' = w1" by simp_all
    moreover have "calls (heap w1 se) = calls (heap w se) @
          [tl b. b \<leftarrow> map (\<lambda>r. fst (Read (attachPacketBufSize + 1) r)) [r],
                 b \<noteq> [], hd b = attachPipeStderr]"
      using one rd by simp
    ultimately show ?thesis using one by blast
  qed
qed

text \<open>
  C7, for non-nil sinks: with \<open>AttachStdout\<close> false, \<open>AttachStderr\<close> true and both
  \<open>Streams.Stdout\<close> and \<open>Streams.Stderr\<close> non-nil, a STDOUT-tagged chunk is dropped
  and the loop goes on to the next read with nothing changed; and of the chunks a run
  reads (\<open>consumed\<close>, up to where it returns or waits), the payloads of the
  STDERR-tagged ones, each the chunk's bytes after the tag, are handed to the stderr
  writer unmodified and in arrival order, and no other writer is touched.
\<close>

theorem stderr_only_delivery:
  assumes "\<not> AttachStdout (Streams cfg)" and "AttachStderr (Streams cfg)"
    and "Stdout (Streams cfg) = Some so" and "Stderr (Streams cfg) = Some se"
  shows "(\<forall>payload conn w.
            redirectResponseToOutputStreams cfg ((attachPipeStdout # payload, None) # conn) w =
            redirectResponseToOutputStreams cfg conn w) \<and>
         (\<forall>conn w res rest w'.
            redirectResponseToOutputStreams cfg conn w = (res, rest, w') \<longrightarrow>
            (\<exists>consumed. conn = consumed @ rest \<and>
               calls (heap w' se) = calls (heap w se) @
                 [tl b. b \<leftarrow> map (\<lambda>r. fst (Read (attachPacketBufSize + 1) r)) consumed,
                        b \<noteq> [], hd b = attachPipeStderr] \<and>
               (\<forall>a. a \<noteq> se \<longrightarrow> heap w' a = heap w a)))"
proof (intro conjI allI impI)
  fix payload conn w
  show "redirectResponseToOutputStreams cfg ((attachPipeStdout # payload, None) # conn) w =
            redirectResponseToOutputStreams cfg conn w"
    by (simp add: Read_def deliver_stdout_discarded [OF assms(1,3)])
next
  fix conn w res rest w'
  assume "redirectResponseToOutputStreams cfg conn w = (res, rest, w')"
  from stderr_only_run [OF assms this]
  show "\<exists>consumed. conn = consumed @ rest \<and>
               calls (heap w' se) = calls (heap w se) @
                 [tl b. b \<leftarrow> map (\<lambda>r. fst (Read (attachPacketBufSize + 1) r)) consumed,
                        b \<noteq> [], hd b = attachPipeStderr] \<and>
               (\<forall>a. a \<noteq> se \<longrightarrow> heap w' a = heap w a)" .
qed

theorem stderr_only_delivery_witness:
  "\<not> AttachStdout (Streams exCfg) \<and> AttachStderr (Streams exCfg) \<and>
   Stdout (Streams exCfg) = Some 0 \<and> Stderr (Streams exCfg) = Some 1 \<and>
   redirectResponseToOutputStreams exCfg
     [([attachPipeStdout, 97], None), ([attachPipeStderr, 98], None),
      ([attachPipeStderr, 99, 100], Some EOF)] exWorld =
   redirectResponseToOutputStreams exCfg
     [([attachPipeStderr, 98], None), ([attachPipeStderr, 99, 100], Some EOF)] exWorld \<and>
   redirectResponseToOutputStreams exCfg
     [([attachPipeStderr, 98], None), ([attachPipeStderr, 99, 100], Some EOF)] exWorld =
     (Some None, [],
      exWorld\<lparr>heap := (heap exWorld)(1 := wholeWriter\<lparr>calls := [[98], [99, 100]]\<rparr>)\<rparr>) \<and>
   (\<exists>consumed.
      [([attachPipeStderr, 98], None), ([attachPipeStderr, 99, 100], Some EOF)] = consumed @ [] \<and>
      calls (heap (exWorld\<lparr>heap := (heap exWorld)(1 := wholeWriter\<lparr>calls := [[98], [99, 100]]\<rparr>)\<rparr>) 1) =
        calls (heap exWorld 1) @
          [tl b. b \<leftarrow> map (\<lambda>r. fst (Read (attachPacketBufSize + 1) r)) consumed,
                 b \<noteq> [], hd b = attachPipeStderr])"
proof -
  have flags: "\<not> AttachStdout (Streams exCfg)" "AttachStderr (Streams exCfg)"
    "Stdout (Streams exCfg) = Some 0" "Stderr (Streams exCfg) = Some 1"
    by (simp_all add: exCfg_def exStreams_def)
  note inst = stderr_only_delivery [OF flags]
  have run: "redirectResponseToOutputStreams exCfg
     [([attachPipeStderr, 98], None), ([attachPipeStderr, 99, 100], Some EOF)] exWorld =
     (Some None, [],
      exWorld\<lparr>heap := (heap exWorld)(1 := wholeWriter\<lparr>calls := [[98], [99, 100]]\<rparr>)\<rparr>)"
    by (simp add: Read_def deliver_def route_def Write_def exCfg_def exStreams_def
        exWorld_def wholeWriter_def attachPacketBufSize_def attachPipeStdout_def
        attachPipeStderr_def)
  from inst have drop: "redirectResponseToOutputStreams exCfg
     (([attachPipeStdout, 97], None) # [([attachPipeStderr, 98], None),
      ([attachPipeStderr, 99, 100], Some EOF)]) exWorld =
   redirectResponseToOutputStreams exCfg
     [([attachPipeStderr, 98], None), ([attachPipeStderr, 99, 100], Some EOF)] exWorld"
    by blast
  from inst run have pay: "\<exists>consumed.
      [([attachPipeStderr, 98], None), ([attachPipeStderr, 99, 100], Some EOF)] = consumed @ [] \<and>
      calls (heap (exWorld\<lparr>heap := (heap exWorld)(1 := wholeWriter\<lparr>calls := [[98], [99, 100]]\<rparr>)\<rparr>) 1) =
        calls (heap exWorld 1) @
          [tl b. b \<leftarrow> map (\<lambda>r. fst (Read (attachPacketBufSize + 1) r)) consumed,
                 b \<noteq> [], hd b = attachPipeStderr]"
    by blast
  from flags drop run pay show ?thesis by blast
qed

theorem nil_stdout_counterexample:
  "\<not> AttachStdout (Streams (exCfg\<lparr>Streams := exStreams\<lparr>Stdout := None\<rparr>\<rparr>)) \<and>
   AttachStderr (Streams (exCfg\<lparr>Streams := exStreams\<lparr>Stdout := None\<rparr>\<rparr>)) \<and>
   redirectResponseToOutputStreams (exCfg\<lparr>Streams := exStreams\<lparr>Stdout := None\<rparr>\<rparr>)
     [([attachPipeStdout, 97], None), ([attachPipeStderr, 98], None), ([], Some EOF)] exWorld =
     (Some (Some ErrOutputDestinationNil),
      [([attachPipeStderr, 98], None), ([], Some EOF)], exWorld) \<and>
   calls (heap exWorld 1) = []"
  by (simp add: Read_def deliver_def route_def exCfg_def exStreams_def exWorld_def
      wholeWriter_def attachPacketBufSize_def)






subsection \<open>The stdin forwarder\<close>

lemma scanKeys_Forward:
  "scanKeys ks p b e s = Forward p' b' e' s' \<Longrightarrow>
   \<exists>cons. s = cons @ s' \<and>
     (ks = [] \<longrightarrow> cons = [] \<and> p' = p \<and> b' = b) \<and>
     (ks \<noteq> [] \<longrightarrow> p' = p @ b @ concat (map (\<lambda>r. fst (Read copyBufSize r)) cons))"
proof (induction ks arbitrary: p b e s)
  case Nil
  then show ?case by simp
next
  case (Cons key ks)
  show ?case
  proof (cases "length b \<noteq> 1 \<or> hd b \<noteq> key")
    case True
    with Cons.prems have "p' = p @ b" and "s' = s" by auto
    then show ?thesis by simp
  next
    case False
    note single = False
    show ?thesis
    proof (cases s)
      case Nil
      with Cons.prems single show ?thesis by (simp split: if_splits)
    next
      case tail: (Cons r s1)
      obtain b1 e1 where rd: "Read copyBufSize r = (b1, e1)"
        by (cases "Read copyBufSize r")
      from Cons.prems single tail rd
      have ks: "ks \<noteq> []" and run: "scanKeys ks (p @ b) b1 e1 s1 = Forward p' b' e' s'"
        by (auto split: if_splits)
      from Cons.IH [OF run] ks obtain cons where
        c: "s1 = cons @ s'" "p' = (p @ b) @ b1 @ concat (map (\<lambda>r. fst (Read copyBufSize r)) cons)"
        by blast
      have "s = (r # cons) @ s'" using tail c(1) by simp
      moreover have "p' = p @ b @ concat (map (\<lambda>r. fst (Read copyBufSize r)) (r # cons))"
        using c(2) rd by simp
      ultimately show ?thesis by blast
    qed
  qed
qed

lemma scanKeys_Detached:
  "scanKeys ks p b e s = Detached s' \<Longrightarrow> ks \<noteq> [] \<and> (\<exists>cons. s = cons @ s')"
proof (induction ks arbitrary: p b e s)
  case Nil
  then show ?case by simp
next
  case (Cons key ks)
  show ?case
  proof (cases "length b \<noteq> 1 \<or> hd b \<noteq> key")
    case True
    with Cons.prems show ?thesis by simp
  next
    case False
    note single = False
    show ?thesis
    proof (cases "ks = []")
      case True
      with Cons.prems single have "s' = s" by auto
      then show ?thesis by simp
    next
      case more_keys: False
      show ?thesis
      proof (cases s)
        case Nil
        with Cons.prems single more_keys show ?thesis by simp
      next
        case tail: (Cons r s1)
        obtain b1 e1 where rd: "Read copyBufSize r = (b1, e1)"
          by (cases "Read copyBufSize r")
        from Cons.prems single tail rd more_keys
        have "scanKeys ks (p @ b) b1 e1 s1 = Detached s'"
          by simp
        from Cons.IH [OF this] obtain cons where "s1 = cons @ s'" by blast
        then have "s = (r # cons) @ s'" using tail by simp
        then show ?thesis by blast
      qed
    qed
  qed
qed

lemma scanKeys_Starved:
  "scanKeys ks p b e s = Starved \<Longrightarrow> ks \<noteq> []"
  by (cases ks) simp_all


lemma CopyDetachable_raw:
  "CopyDetachable dst src keys = (res, dst', rest) \<Longrightarrow>
   \<exists>consumed written. src = consumed @ rest \<and> calls dst' = calls dst @ written \<and>
     (keys = [] \<longrightarrow>
        written = filter (\<lambda>b. b \<noteq> []) (map (\<lambda>r. fst (Read copyBufSize r)) consumed)) \<and>
     ((\<exists>e. res = Some e \<and> e \<noteq> Some ErrDetach) \<longrightarrow>
        concat written = concat (map (\<lambda>r. fst (Read copyBufSize r)) consumed))"
proof (induction src arbitrary: dst rule: length_induct)
  case (1 src)
  let ?chunk = "\<lambda>r. fst (Read copyBufSize r)"
  let ?P = "\<lambda>src dst consumed written. src = consumed @ rest \<and> calls dst' = calls dst @ written \<and>
     (keys = [] \<longrightarrow> written = filter (\<lambda>b. b \<noteq> []) (map ?chunk consumed)) \<and>
     ((\<exists>e. res = Some e \<and> e \<noteq> Some ErrDetach) \<longrightarrow> concat written = concat (map ?chunk consumed))"
  have IH: "\<exists>consumed written. ?P s d consumed written"
    if "length s < length src" and "CopyDetachable d s keys = (res, dst', rest)" for s d
    using 1 that by blast
  show ?case
  proof (cases src)
    case Nil
    with "1.prems" have "?P src dst [] []" by simp
    then show ?thesis by blast
  next
    case (Cons r s)
    obtain buf er where rd: "Read copyBufSize r = (buf, er)"
      by (cases "Read copyBufSize r")
    then have chunk: "?chunk r = buf" by simp
    show ?thesis
    proof (cases "buf = []")
      case True
      show ?thesis
      proof (cases "readEnded er")
        case None
        with "1.prems" Cons rd True have "CopyDetachable dst s keys = (res, dst', rest)"
          by simp
        from IH [OF _ this] Cons obtain consumed written where "?P s dst consumed written"
          by auto
        then have "?P src dst (r # consumed) written"
          using Cons chunk True by simp
        then show ?thesis by blast
      next
        case (Some err)
        with "1.prems" Cons rd True have "res = Some err" "dst' = dst" "rest = s"
          by simp_all
        then have "?P src dst [r] []"
          using Cons chunk True by simp
        then show ?thesis by blast
      qed
    next
      case False
      show ?thesis
      proof (cases "scanKeys keys [] buf er s")
        case Starved
        with "1.prems" Cons rd False have "res = None" "dst' = dst" "rest = []"
          by simp_all
        moreover have "keys \<noteq> []" using scanKeys_Starved [OF Starved] .
        ultimately have "?P src dst src []" by simp
        then show ?thesis by blast
      next
        case (Detached s1)
        with "1.prems" Cons rd False have r: "res = Some (Some ErrDetach)" "dst' = dst" "rest = s1"
          by simp_all
        from scanKeys_Detached [OF Detached] obtain cons where "keys \<noteq> []" "s = cons @ s1"
          by blast
        with r Cons have "?P src dst (r # cons) []" by simp
        then show ?thesis by blast
      next
        case (Forward p b1 e1 s1)
        from scanKeys_Forward [OF Forward] obtain cons where
          cons: "s = cons @ s1" "keys = [] \<longrightarrow> cons = [] \<and> p = [] \<and> b1 = buf"
            "keys \<noteq> [] \<longrightarrow> p = buf @ concat (map ?chunk cons)"
          by auto
        define wbuf where "wbuf = (if length p > 0 then p else b1)"
        have wbuf: "wbuf = concat (map ?chunk (r # cons))" "keys = [] \<longrightarrow> wbuf = buf"
          using cons(2,3) False chunk by (auto simp add: wbuf_def)
        obtain nw ew dst1 where wr: "Write dst wbuf = ((nw, ew), dst1)"
          by (cases "Write dst wbuf") auto
        then have dst1: "calls dst1 = calls dst @ [wbuf]"
          by (auto simp add: Write_def)
        have step: "CopyDetachable dst src keys =
            (if ew \<noteq> None then (Some ew, dst1, s1)
             else if (of_nat (length wbuf) :: goint) \<noteq> nw then (Some (Some ErrShortWrite), dst1, s1)
             else (case readEnded e1 of
                     Some err \<Rightarrow> (Some err, dst1, s1)
                   | None \<Rightarrow> CopyDetachable dst1 s1 keys))"
          using Cons rd False Forward wr by (simp add: wbuf_def)
        have stop: "?P src dst (r # cons) [wbuf]" if "dst' = dst1" "rest = s1"
          using that Cons cons(1,2) wbuf dst1 False chunk by auto
        show ?thesis
        proof (cases "ew \<noteq> None \<or> (of_nat (length wbuf) :: goint) \<noteq> nw \<or> readEnded e1 \<noteq> None")
          case True
          with "1.prems" step have "dst' = dst1 \<and> rest = s1"
            by (auto split: if_splits)
          with stop show ?thesis by blast
        next
          case False
          with "1.prems" step have "CopyDetachable dst1 s1 keys = (res, dst', rest)"
            by auto
          moreover have "length s1 < length src" using Cons cons(1) by simp
          ultimately obtain consumed written where tl: "?P s1 dst1 consumed written"
            using IH by blast
          have "?P src dst (r # cons @ consumed) (wbuf # written)"
            using tl Cons cons(1,2) wbuf dst1 chunk \<open>buf \<noteq> []\<close> by auto
          then show ?thesis by blast
        qed
      qed
    qed
  qed
qed


text \<open>
  C2, as the code behaves: when \<open>AttachStdin\<close> is set, what the stdin goroutine, run
  with the library's \<open>CopyDetachable\<close>, hands to the \<open>Write\<close> of the attach socket is
  the bytes it read from \<open>Streams.Stdin\<close>, as they are: with no detach keys every
  non-empty chunk read is one \<open>Write\<close> of exactly the chunk, and with detach keys the
  buffers written, put end to end, are the chunks read, put end to end, whenever the
  copy returns something other than the detach sentinel. No tag byte is put in front
  and nothing cuts a chunk to 8192 bytes.
\<close>

theorem stdin_forwarded_raw:
  assumes "AttachStdin (Streams cfg)" and "copyStdin CopyDetachable cfg conn = (res, dst', rest)"
  shows "\<exists>consumed written.
           Stdin (Streams cfg) = consumed @ rest \<and> calls dst' = calls (wr conn) @ written \<and>
           (DetachKeys cfg = [] \<longrightarrow>
              written = filter (\<lambda>b. b \<noteq> []) (map (\<lambda>r. fst (Read copyBufSize r)) consumed)) \<and>
           ((\<exists>e. res = Some e \<and> e \<noteq> Some ErrDetach) \<longrightarrow>
              concat written = concat (map (\<lambda>r. fst (Read copyBufSize r)) consumed))"
proof -
  from assms
  have "CopyDetachable (wr conn) (Stdin (Streams cfg)) (DetachKeys cfg) = (res, dst', rest)"
    by (simp add: copyStdin_def)
  from CopyDetachable_raw [OF this] show ?thesis .
qed

theorem stdin_forwarded_raw_witness:
  "AttachStdin (Streams exStdinCfg) \<and>
   copyStdin CopyDetachable exStdinCfg exConn = (Some None, wholeWriter\<lparr>calls := [[97]]\<rparr>, []) \<and>
   (\<exists>consumed written.
      Stdin (Streams exStdinCfg) = consumed @ [] \<and>
      calls (wholeWriter\<lparr>calls := [[97]]\<rparr>) = calls (wr exConn) @ written \<and>
      (DetachKeys exStdinCfg = [] \<longrightarrow>
         written = filter (\<lambda>b. b \<noteq> []) (map (\<lambda>r. fst (Read copyBufSize r)) consumed)) \<and>
      ((\<exists>e. Some None = Some e \<and> e \<noteq> Some ErrDetach) \<longrightarrow>
         concat written = concat (map (\<lambda>r. fst (Read copyBufSize r)) consumed)))"
proof -
  have a: "AttachStdin (Streams exStdinCfg)"
    by (simp add: exStdinCfg_def)
  have b: "copyStdin CopyDetachable exStdinCfg exConn = (Some None, wholeWriter\<lparr>calls := [[97]]\<rparr>, [])"
    by (simp add: copyStdin_def exStdinCfg_def exCfg_def exStreams_def exConn_def Read_def
        Write_def wholeWriter_def readEnded_def copyBufSize_def)
  show ?thesis
    using stdin_forwarded_raw [OF a b] a b by blast
qed

theorem stdin_untagged_counterexample:
  "AttachStdin (Streams exStdinCfg) \<and>
   Stdin (Streams exStdinCfg) = [([97], None), ([], Some EOF)] \<and>
   calls (wr exConn) = [] \<and>
   calls (fst (snd (copyStdin CopyDetachable exStdinCfg exConn))) = [[97]] \<and>
   calls (fst (snd (copyStdin CopyDetachable exStdinCfg exConn))) \<noteq> [[attachPipeStdin, 97]]"
  by (simp add: copyStdin_def exStdinCfg_def exCfg_def exStreams_def exConn_def Read_def
      Write_def wholeWriter_def readEnded_def copyBufSize_def)

subsection \<open>The coordinator\<close>

text \<open>
  C1, as the code behaves: when the stdin goroutine's value is the one the \<open>select\<close>
  receives, it is an error other than the detach sentinel and \<open>StopAfterStdinEOF\<close> is
  not set, \<open>readStdio\<close> makes no call on the socket (no half-close) and drops the stdin
  error: it waits for and returns the demultiplexer's value if \<open>AttachStdout\<close> or
  \<open>AttachStderr\<close> is set, and returns nil otherwise.
\<close>

theorem stdin_error_is_dropped:
  assumes "\<not> StopAfterStdinEOF cfg"
    and "selectCase pick receiveStdoutError stdinDone = Some (StdinDone, Some e)"
    and "e \<noteq> ErrDetach"
  shows "readStdio pick cfg conn receiveStdoutError stdinDone w =
           (if AttachStdout (Streams cfg) \<or> AttachStderr (Streams cfg)
            then receiveStdoutError else Some None, conn, w)"
  using assms by (simp add: readStdio_def)

theorem stdin_error_is_dropped_witness:
  "\<not> StopAfterStdinEOF exCfg \<and>
   selectCase StdinDone (Some None) (Some (Some (Other ''broken pipe''))) =
     Some (StdinDone, Some (Other ''broken pipe'')) \<and>
   Other ''broken pipe'' \<noteq> ErrDetach \<and>
   readStdio StdinDone exCfg exConn (Some None) (Some (Some (Other ''broken pipe''))) exWorld =
     (if AttachStdout (Streams exCfg) \<or> AttachStderr (Streams exCfg)
      then Some None else Some None, exConn, exWorld)"
proof -
  have stop: "\<not> StopAfterStdinEOF exCfg"
    by (simp add: exCfg_def)
  have sel: "selectCase StdinDone (Some None) (Some (Some (Other ''broken pipe''))) =
     Some (StdinDone, Some (Other ''broken pipe''))"
    by (simp add: selectCase_def)
  have ne: "Other ''broken pipe'' \<noteq> ErrDetach"
    by simp
  from stop sel ne stdin_error_is_dropped [OF stop sel ne, of exConn exWorld]
  show ?thesis by blast
qed

theorem stdin_error_counterexample:
  "\<not> StopAfterStdinEOF (exCfg\<lparr>Streams := exStreams\<lparr>AttachStderr := False\<rparr>\<rparr>) \<and>
   selectCase StdinDone None (Some (Some (Other ''broken pipe''))) =
     Some (StdinDone, Some (Other ''broken pipe'')) \<and>
   readStdio StdinDone (exCfg\<lparr>Streams := exStreams\<lparr>AttachStderr := False\<rparr>\<rparr>) exConn None
     (Some (Some (Other ''broken pipe''))) exWorld = (Some None, exConn, exWorld) \<and>
   ops exConn = [] \<and>
   \<not> (fst (readStdio StdinDone (exCfg\<lparr>Streams := exStreams\<lparr>AttachStderr := False\<rparr>\<rparr>) exConn
            None (Some (Some (Other ''broken pipe''))) exWorld) =
          Some (Some (Other ''broken pipe'')) \<and>
        CloseWrite \<in> set (ops (fst (snd (readStdio StdinDone
            (exCfg\<lparr>Streams := exStreams\<lparr>AttachStderr := False\<rparr>\<rparr>) exConn
            None (Some (Some (Other ''broken pipe''))) exWorld)))))"
  by (simp add: readStdio_def selectCase_def exCfg_def exStreams_def exConn_def)

text \<open>
  C3: when the stdin goroutine's value is the one the \<open>select\<close> receives, it is nil and
  \<open>StopAfterStdinEOF\<close> is not set, \<open>readStdio\<close> calls \<open>CloseWrite\<close> on the socket (a
  failure of the call is only logged); then, if \<open>AttachStdout\<close> or \<open>AttachStderr\<close> is
  set, its outcome is the demultiplexer's: the value that one sends, or waiting for
  ever if it never sends; otherwise it returns nil whatever the demultiplexer does.
\<close>

theorem clean_stdin_half_closes_then_waits:
  assumes "\<not> StopAfterStdinEOF cfg"
    and "selectCase pick receiveStdoutError stdinDone = Some (StdinDone, None)"
  shows "readStdio pick cfg conn receiveStdoutError stdinDone w =
           (if AttachStdout (Streams cfg) \<or> AttachStderr (Streams cfg)
            then receiveStdoutError else Some None,
            conn\<lparr>ops := ops conn @ [CloseWrite]\<rparr>,
            case closeWriteResult conn of
              None \<Rightarrow> w
            | Some connErr \<Rightarrow> w\<lparr>logged := logged w @ [UnableToCloseConn connErr]\<rparr>)"
  using assms by (simp add: readStdio_def connCloseWrite_def split: option.splits)

theorem clean_stdin_half_closes_then_waits_witness:
  "\<not> StopAfterStdinEOF exCfg \<and>
   selectCase StdinDone (Some (Some (Other ''read failed''))) (Some None) =
     Some (StdinDone, None) \<and>
   readStdio StdinDone exCfg exConn (Some (Some (Other ''read failed''))) (Some None) exWorld =
     (if AttachStdout (Streams exCfg) \<or> AttachStderr (Streams exCfg)
      then Some (Some (Other ''read failed'')) else Some None,
      exConn\<lparr>ops := ops exConn @ [CloseWrite]\<rparr>,
      case closeWriteResult exConn of
        None \<Rightarrow> exWorld
      | Some connErr \<Rightarrow> exWorld\<lparr>logged := logged exWorld @ [UnableToCloseConn connErr]\<rparr>)"
proof -
  have stop: "\<not> StopAfterStdinEOF exCfg"
    by (simp add: exCfg_def)
  have sel: "selectCase StdinDone (Some (Some (Other ''read failed''))) (Some None) =
     Some (StdinDone, None)"
    by (simp add: selectCase_def)
  from stop sel clean_stdin_half_closes_then_waits [OF stop sel, of exConn exWorld]
  show ?thesis by blast
qed

text \<open>
  C4: when \<open>StopAfterStdinEOF\<close> is set and the stdin goroutine's value is the one the
  \<open>select\<close> receives, \<open>readStdio\<close> returns nil whatever that value is, makes no call
  on the socket, and does not wait for the demultiplexer, which may never send.
\<close>

theorem stdin_eof_stop_returns_nil:
  assumes "StopAfterStdinEOF cfg"
    and "selectCase pick receiveStdoutError stdinDone = Some (StdinDone, err)"
  shows "readStdio pick cfg conn receiveStdoutError stdinDone w = (Some None, conn, w)"
  using assms by (simp add: readStdio_def)

theorem stdin_eof_stop_returns_nil_witness:
  "StopAfterStdinEOF (exCfg\<lparr>StopAfterStdinEOF := True\<rparr>) \<and>
   selectCase ReceiveStdoutError None (Some (Some (Other ''broken pipe''))) =
     Some (StdinDone, Some (Other ''broken pipe'')) \<and>
   readStdio ReceiveStdoutError (exCfg\<lparr>StopAfterStdinEOF := True\<rparr>) exConn None
     (Some (Some (Other ''broken pipe''))) exWorld = (Some None, exConn, exWorld)"
proof -
  have stop: "StopAfterStdinEOF (exCfg\<lparr>StopAfterStdinEOF := True\<rparr>)"
    by simp
  have sel: "selectCase ReceiveStdoutError None (Some (Some (Other ''broken pipe''))) =
     Some (StdinDone, Some (Other ''broken pipe''))"
    by (simp add: selectCase_def)
  from stop sel stdin_eof_stop_returns_nil [OF stop sel, of exConn exWorld]
  show ?thesis by blast
qed

text \<open>
  C5: when the stdin goroutine's value is the one the \<open>select\<close> receives, it is the
  detach sentinel and \<open>StopAfterStdinEOF\<close> is not set, \<open>readStdio\<close> calls \<open>CloseWrite\<close>
  on the socket and returns the detach sentinel, without waiting for the
  demultiplexer, which may never send.
\<close>

theorem detach_half_closes_and_returns:
  assumes "\<not> StopAfterStdinEOF cfg"
    and "selectCase pick receiveStdoutError stdinDone = Some (StdinDone, Some ErrDetach)"
  shows "readStdio pick cfg conn receiveStdoutError stdinDone w =
           (Some (Some ErrDetach), conn\<lparr>ops := ops conn @ [CloseWrite]\<rparr>, w)"
  using assms by (simp add: readStdio_def connCloseWrite_def)

theorem detach_half_closes_and_returns_witness:
  "\<not> StopAfterStdinEOF exCfg \<and>
   selectCase ReceiveStdoutError None (Some (Some ErrDetach)) =
     Some (StdinDone, Some ErrDetach) \<and>
   readStdio ReceiveStdoutError exCfg exConn None (Some (Some ErrDetach)) exWorld =
     (Some (Some ErrDetach), exConn\<lparr>ops := ops exConn @ [CloseWrite]\<rparr>, exWorld)"
proof -
  have stop: "\<not> StopAfterStdinEOF exCfg"
    by (simp add: exCfg_def)
  have sel: "selectCase ReceiveStdoutError None (Some (Some ErrDetach)) =
     Some (StdinDone, Some ErrDetach)"
    by (simp add: selectCase_def)
  from stop sel detach_half_closes_and_returns [OF stop sel, of exConn exWorld]
  show ?thesis by blast
qed

subsection \<open>The session\<close>

lemma readStdio_ops:
  assumes "readStdio pick cfg conn receiveStdoutError stdinDone w = (r, c, w')"
  shows "ops c = ops conn \<or> ops c = ops conn @ [CloseWrite]"
proof (cases "selectCase pick receiveStdoutError stdinDone")
  case None
  with assms show ?thesis by (simp add: readStdio_def)
next
  case (Some sel)
  obtain s err where sel: "sel = (s, err)" by (cases sel)
  show ?thesis
  proof (cases s)
    case ReceiveStdoutError
    with assms Some sel show ?thesis
      by (auto simp add: readStdio_def connCloseWrite_def)
  next
    case StdinDone
    with assms Some sel show ?thesis
      by (auto simp add: readStdio_def connCloseWrite_def split: if_splits option.splits)
  qed
qed

lemma connClose_ops: "ops (snd (connClose c)) = ops c @ [Close]"
  by (simp add: connClose_def)

text \<open>
  C9: in a session that is not passthrough and whose dial succeeded, whenever
  \<open>attach\<close> returns, the last call made on the socket is \<open>Close\<close>: the calls it made
  are \<open>Close\<close> alone, or \<open>CloseWrite\<close> and then \<open>Close\<close>. The paths on which it returns:
  a failing pre-attach hook returns the hook's error; otherwise a failing post-attach
  hook returns the hook's error; otherwise \<open>attach\<close> returns what \<open>readStdio\<close> returns,
  by any of its branches, and waits for ever only where \<open>readStdio\<close> does.
\<close>

theorem attach_closes_socket:
  assumes "\<not> Passthrough cfg" and "dial = Inr conn"
  shows "(\<forall>res conn' w'.
            attach copy pick dial cfg w = (Some res, conn', w') \<longrightarrow>
            (\<exists>c. conn' = Some c \<and>
               (ops c = ops conn @ [Close] \<or> ops c = ops conn @ [CloseWrite, Close]))) \<and>
         (\<forall>e. PreAttachFunc cfg = Some (Some e) \<longrightarrow>
            fst (attach copy pick dial cfg w) = Some (Some e)) \<and>
         (\<forall>e. PreAttachFunc cfg \<in> {None, Some None} \<and> PostAttachFunc cfg = Some (Some e) \<longrightarrow>
            fst (attach copy pick dial cfg w) = Some (Some e)) \<and>
         (PreAttachFunc cfg \<in> {None, Some None} \<and> PostAttachFunc cfg \<in> {None, Some None} \<longrightarrow>
            fst (attach copy pick dial cfg w) =
            fst (readStdio pick cfg conn (fst (setupStdioChannels copy cfg conn w))
                   (snd (setupStdioChannels copy cfg conn w)) w))"
proof -
  define body where "body =
    (case PreAttachFunc cfg of
       Some (Some err) \<Rightarrow> (Some (Some err), conn, w)
     | _ \<Rightarrow>
        (case setupStdioChannels copy cfg conn w of
           (receiveStdoutError, stdinDone) \<Rightarrow>
             (case PostAttachFunc cfg of
                Some (Some err) \<Rightarrow> (Some (Some err), conn, w)
              | _ \<Rightarrow> readStdio pick cfg conn receiveStdoutError stdinDone w)))"
  obtain r c1 w1 where body: "body = (r, c1, w1)" by (cases body)
  have c1: "ops c1 = ops conn \<or> ops c1 = ops conn @ [CloseWrite]"
    using body readStdio_ops
    unfolding body_def
    by (fastforce split: option.splits prod.splits)
  have att: "attach copy pick dial cfg w =
      (case (r, c1, w1) of
         (None, conn1, w1) \<Rightarrow> (None, Some conn1, w1)
       | (Some res, conn1, w1) \<Rightarrow>
           (case connClose conn1 of
              (None, conn2) \<Rightarrow> (Some res, Some conn2, w1)
            | (Some err, conn2) \<Rightarrow>
                (Some res, Some conn2, w1\<lparr>logged := logged w1 @ [UnableToCloseSocket err]\<rparr>)))"
    using assms(1,2) body unfolding attach_def body_def by simp
  have res: "fst (attach copy pick dial cfg w) = r"
    unfolding att by (cases r; cases "connClose c1"; cases "fst (connClose c1)") auto
  have closed: "\<exists>c. conn' = Some c \<and>
               (ops c = ops conn @ [Close] \<or> ops c = ops conn @ [CloseWrite, Close])"
    if "attach copy pick dial cfg w = (Some res, conn', w')" for res conn' w'
  proof -
    from att that have "conn' = Some (snd (connClose c1))"
      by (cases r; cases "connClose c1"; cases "fst (connClose c1)") auto
    with c1 show ?thesis
      by (auto simp add: connClose_ops)
  qed
  have pre: "r = Some (Some e)" if "PreAttachFunc cfg = Some (Some e)" for e
    using that body unfolding body_def by simp
  have post: "r = Some (Some e)"
    if "PreAttachFunc cfg \<in> {None, Some None} \<and> PostAttachFunc cfg = Some (Some e)" for e
    using that body unfolding body_def by (auto split: prod.splits)
  have coord: "r = fst (readStdio pick cfg conn (fst (setupStdioChannels copy cfg conn w))
                   (snd (setupStdioChannels copy cfg conn w)) w)"
    if "PreAttachFunc cfg \<in> {None, Some None} \<and> PostAttachFunc cfg \<in> {None, Some None}"
    using that body unfolding body_def by (auto split: prod.splits)
  show ?thesis
    unfolding res using closed pre post coord by blast
qed

theorem attach_closes_socket_witness:
  "\<not> Passthrough exCfg \<and>
   attach CopyDetachable StdinDone (Inr exConn) exCfg exWorld =
     (Some None, Some (exConn\<lparr>ops := [CloseWrite, Close]\<rparr>), exWorld) \<and>
   (\<exists>c. Some (exConn\<lparr>ops := [CloseWrite, Close]\<rparr>) = Some c \<and>
        (ops c = ops exConn @ [Close] \<or> ops c = ops exConn @ [CloseWrite, Close]))"
proof -
  have np: "\<not> Passthrough exCfg"
    by (simp add: exCfg_def)
  have demux: "fst (redirectResponseToOutputStreams exCfg (rd exConn) exWorld) = Some None"
    by (simp add: Read_def deliver_def route_def Write_def exCfg_def exStreams_def
        exConn_def exWorld_def wholeWriter_def attachPacketBufSize_def attachPipeStdout_def
        attachPipeStderr_def)
  have stdin: "fst (copyStdin CopyDetachable exCfg exConn) = Some None"
    by (simp add: copyStdin_def exCfg_def exStreams_def)
  have chans: "setupStdioChannels CopyDetachable exCfg exConn exWorld = (Some None, Some None)"
    using demux stdin by (simp add: setupStdioChannels_def)
  have closes: "closeResult exConn = None"
    by (simp add: exConn_def)
  have hooks: "PreAttachFunc exCfg = None" "PostAttachFunc exCfg = None"
    by (simp_all add: exCfg_def)
  have coord: "readStdio StdinDone exCfg exConn (Some None) (Some None) exWorld =
     (Some None, exConn\<lparr>ops := [CloseWrite]\<rparr>, exWorld)"
    by (simp add: readStdio_def selectCase_def connCloseWrite_def exCfg_def exStreams_def
        exConn_def)
  have run: "attach CopyDetachable StdinDone (Inr exConn) exCfg exWorld =
     (Some None, Some (exConn\<lparr>ops := [CloseWrite, Close]\<rparr>), exWorld)"
    using np closes by (simp add: attach_def chans hooks coord connClose_def)
  from np run
    attach_closes_socket [where cfg = exCfg and dial = "Inr exConn" and conn = exConn
      and pick = StdinDone and w = exWorld and copy = CopyDetachable, OF np refl]
  show ?thesis by blast
qed

subsection \<open>The session after an unroutable chunk\<close>

lemma attach_result:
  assumes "\<not> Passthrough cfg"
    and "PreAttachFunc cfg \<in> {None, Some None}"
    and "PostAttachFunc cfg \<in> {None, Some None}"
  shows "fst (attach copy pick (Inr c) cfg w) =
         fst (readStdio pick cfg c (fst (redirectResponseToOutputStreams cfg (rd c) w))
                (fst (copyStdin copy cfg c)) w)"
proof -
  obtain r c1 w1 where rs: "readStdio pick cfg c (fst (redirectResponseToOutputStreams cfg (rd c) w))
                (fst (copyStdin copy cfg c)) w = (r, c1, w1)"
    by (cases "readStdio pick cfg c (fst (redirectResponseToOutputStreams cfg (rd c) w))
                (fst (copyStdin copy cfg c)) w")
  show ?thesis
    using assms rs
    by (cases r; cases "connClose c1"; cases "fst (connClose c1)")
       (auto simp add: attach_def setupStdioChannels_def)
qed

text \<open>
  C6, with the coordinator's rules: whatever the loop has read before (\<open>pre\<close>, all of
  it read without leaving the loop), a non-empty chunk whose first byte is neither the
  STDOUT tag nor the STDERR tag (the STDIN tag 1 is such a byte) makes
  \<open>redirectResponseToOutputStreams\<close> return the error "output destination cannot be nil":
  the unexpected tag is logged, no writer is touched, and nothing after the chunk is
  read. A session that is not passthrough and whose hooks do not fail then returns
  this error when the demultiplexer's value is the one \<open>readStdio\<close> receives first (the
  stdin goroutine never sends, or the scheduler picks the demultiplexer), and when the
  stdin goroutine's value is received first, \<open>StopAfterStdinEOF\<close> is not set, the value
  is not the detach sentinel and \<open>AttachStdout\<close> or \<open>AttachStderr\<close> is set. When the
  stdin goroutine's value is received first the session returns nil under
  \<open>StopAfterStdinEOF\<close>, else the detach sentinel on a detach, else nil when both
  deliver flags are false.
\<close>

theorem unroutable_tag_session_outcome:
  assumes "redirectResponseToOutputStreams cfg pre w = (None, rest, w')"
    and "fst r = tag # payload"
    and "tag \<noteq> attachPipeStdout" and "tag \<noteq> attachPipeStderr"
  shows "redirectResponseToOutputStreams cfg (pre @ r # conn) w =
           (Some (Some ErrOutputDestinationNil), conn,
            w'\<lparr>logged := logged w' @ [UnexpectedAttachType tag]\<rparr>) \<and>
         (\<forall>copy pick c.
            \<not> Passthrough cfg \<and> PreAttachFunc cfg \<in> {None, Some None} \<and>
            PostAttachFunc cfg \<in> {None, Some None} \<and> rd c = pre @ r # conn \<longrightarrow>
            fst (attach copy pick (Inr c) cfg w) =
              (case fst (copyStdin copy cfg c) of
                 None \<Rightarrow> Some (Some ErrOutputDestinationNil)
               | Some e \<Rightarrow>
                   if pick = ReceiveStdoutError then Some (Some ErrOutputDestinationNil)
                   else if StopAfterStdinEOF cfg then Some None
                   else if e = Some ErrDetach then Some (Some ErrDetach)
                   else if AttachStdout (Streams cfg) \<or> AttachStderr (Streams cfg)
                     then Some (Some ErrOutputDestinationNil)
                   else Some None))"
proof (intro conjI allI impI)
  show demux: "redirectResponseToOutputStreams cfg (pre @ r # conn) w =
           (Some (Some ErrOutputDestinationNil), conn,
            w'\<lparr>logged := logged w' @ [UnexpectedAttachType tag]\<rparr>)"
    using unroutable_tag_returns [OF assms] .
  fix copy :: copier and pick :: side and c :: unixConn
  assume h: "\<not> Passthrough cfg \<and> PreAttachFunc cfg \<in> {None, Some None} \<and>
            PostAttachFunc cfg \<in> {None, Some None} \<and> rd c = pre @ r # conn"
  then have ro: "fst (redirectResponseToOutputStreams cfg (rd c) w) =
      Some (Some ErrOutputDestinationNil)"
    using demux by simp
  have "fst (attach copy pick (Inr c) cfg w) =
         fst (readStdio pick cfg c (Some (Some ErrOutputDestinationNil))
                (fst (copyStdin copy cfg c)) w)"
    using attach_result [of cfg copy pick c w] h ro by simp
  also have "\<dots> =
              (case fst (copyStdin copy cfg c) of
                 None \<Rightarrow> Some (Some ErrOutputDestinationNil)
               | Some e \<Rightarrow>
                   if pick = ReceiveStdoutError then Some (Some ErrOutputDestinationNil)
                   else if StopAfterStdinEOF cfg then Some None
                   else if e = Some ErrDetach then Some (Some ErrDetach)
                   else if AttachStdout (Streams cfg) \<or> AttachStderr (Streams cfg)
                     then Some (Some ErrOutputDestinationNil)
                   else Some None)"
    by (cases pick)
       (auto simp add: readStdio_def selectCase_def connCloseWrite_def
          split: option.splits prod.splits)
  finally show "fst (attach copy pick (Inr c) cfg w) =
              (case fst (copyStdin copy cfg c) of
                 None \<Rightarrow> Some (Some ErrOutputDestinationNil)
               | Some e \<Rightarrow>
                   if pick = ReceiveStdoutError then Some (Some ErrOutputDestinationNil)
                   else if StopAfterStdinEOF cfg then Some None
                   else if e = Some ErrDetach then Some (Some ErrDetach)
                   else if AttachStdout (Streams cfg) \<or> AttachStderr (Streams cfg)
                     then Some (Some ErrOutputDestinationNil)
                   else Some None)" .
qed

theorem unroutable_tag_session_outcome_witness:
  "redirectResponseToOutputStreams exCfg
     ([([attachPipeStdout, 97], None)] @
      ([attachPipeStdin, 98], None) # [([attachPipeStderr, 99], None)]) exWorld =
     (Some (Some ErrOutputDestinationNil), [([attachPipeStderr, 99], None)],
      exWorld\<lparr>logged := logged exWorld @ [UnexpectedAttachType attachPipeStdin]\<rparr>) \<and>
   fst (copyStdin CopyDetachable exCfg
          (exConn\<lparr>rd := [([attachPipeStdout, 97], None), ([attachPipeStdin, 98], None),
             ([attachPipeStderr, 99], None)]\<rparr>)) = Some None \<and>
   fst (attach CopyDetachable StdinDone
          (Inr (exConn\<lparr>rd := [([attachPipeStdout, 97], None), ([attachPipeStdin, 98], None),
             ([attachPipeStderr, 99], None)]\<rparr>)) exCfg exWorld) =
     Some (Some ErrOutputDestinationNil)"
proof -
  let ?c = "exConn\<lparr>rd := [([attachPipeStdout, 97], None), ([attachPipeStdin, 98], None),
             ([attachPipeStderr, 99], None)]\<rparr>"
  have pre: "redirectResponseToOutputStreams exCfg [([attachPipeStdout, 97], None)] exWorld =
      (None, [], exWorld)"
    by (simp add: Read_def deliver_def route_def exCfg_def exStreams_def
        attachPacketBufSize_def)
  have r: "fst ([attachPipeStdin, 98], None :: goerr) = attachPipeStdin # [98]"
    by simp
  have t: "attachPipeStdin \<noteq> attachPipeStdout" "attachPipeStdin \<noteq> attachPipeStderr"
    by (simp_all add: attachPipeStdin_def attachPipeStdout_def attachPipeStderr_def)
  note inst = unroutable_tag_session_outcome
    [OF pre r t, where conn = "[([attachPipeStderr, 99], None)]"]
  have cfg: "\<not> Passthrough exCfg" "PreAttachFunc exCfg \<in> {None, Some None}"
    "PostAttachFunc exCfg \<in> {None, Some None}" "\<not> StopAfterStdinEOF exCfg"
    "AttachStderr (Streams exCfg)"
    by (simp_all add: exCfg_def exStreams_def)
  have rd: "rd ?c = [([attachPipeStdout, 97], None)] @
      ([attachPipeStdin, 98], None) # [([attachPipeStderr, 99], None)]"
    by simp
  have sd: "fst (copyStdin CopyDetachable exCfg ?c) = Some None"
    by (simp add: copyStdin_def exCfg_def exStreams_def)
  from inst have demux: "redirectResponseToOutputStreams exCfg
     ([([attachPipeStdout, 97], None)] @
      ([attachPipeStdin, 98], None) # [([attachPipeStderr, 99], None)]) exWorld =
     (Some (Some ErrOutputDestinationNil), [([attachPipeStderr, 99], None)],
      exWorld\<lparr>logged := logged exWorld @ [UnexpectedAttachType attachPipeStdin]\<rparr>)"
    by blast
  from inst cfg(1-3) rd
  have "fst (attach CopyDetachable StdinDone (Inr ?c) exCfg exWorld) =
      (case fst (copyStdin CopyDetachable exCfg ?c) of
                 None \<Rightarrow> Some (Some ErrOutputDestinationNil)
               | Some e \<Rightarrow>
                   if StdinDone = ReceiveStdoutError then Some (Some ErrOutputDestinationNil)
                   else if StopAfterStdinEOF exCfg then Some None
                   else if e = Some ErrDetach then Some (Some ErrDetach)
                   else if AttachStdout (Streams exCfg) \<or> AttachStderr (Streams exCfg)
                     then Some (Some ErrOutputDestinationNil)
                   else Some None)"
    by blast
  then have sess: "fst (attach CopyDetachable StdinDone (Inr ?c) exCfg exWorld) =
     Some (Some ErrOutputDestinationNil)"
    using sd cfg(4,5) by simp
  from demux sd sess show ?thesis by blast
qed

theorem unroutable_tag_session_counterexample:
  "fst (redirectResponseToOutputStreams (exCfg\<lparr>StopAfterStdinEOF := True\<rparr>)
          [([attachPipeStdin, 98], None)] exWorld) = Some (Some ErrOutputDestinationNil) \<and>
   fst (attach CopyDetachable StdinDone (Inr (exConn\<lparr>rd := [([attachPipeStdin, 98], None)]\<rparr>))
          (exCfg\<lparr>StopAfterStdinEOF := True\<rparr>) exWorld) = Some None \<and>
   fst (redirectResponseToOutputStreams (exCfg\<lparr>Streams := exStreams\<lparr>AttachStderr := False\<rparr>\<rparr>)
          [([attachPipeStdin, 98], None)] exWorld) = Some (Some ErrOutputDestinationNil) \<and>
   fst (attach CopyDetachable StdinDone (Inr (exConn\<lparr>rd := [([attachPipeStdin, 98], None)]\<rparr>))
          (exCfg\<lparr>Streams := exStreams\<lparr>AttachStderr := False\<rparr>\<rparr>) exWorld) = Some None"
  by (simp add: attach_def setupStdioChannels_def copyStdin_def readStdio_def selectCase_def
      connClose_def connCloseWrite_def Read_def deliver_def route_def exCfg_def exStreams_def
      exConn_def attachPacketBufSize_def attachPipeStdin_def attachPipeStdout_def
      attachPipeStderr_def)

end
